theory Spec2Isabelle
  imports Main "HOL-Library.Word" "HOL-Library.Multiset"
begin

section \<open>Strings: the library functions the services call\<close>

text \<open>
  A Go string is a sequence of bytes, here a \<open>string\<close> (a list of 8-bit characters).
  The functions of the packages \<open>strings\<close> and \<open>strconv\<close> that the services call are
  modelled on the bytes, following their documented behaviour.
\<close>

text \<open>
  \<open>unicode.IsSpace\<close>, read on the UTF-8 encoding: the six ASCII white-space bytes
  (tab, line feed, vertical tab, form feed, carriage return, space) and the encodings
  of U+0085, U+00A0, U+1680, U+2000 to U+200A, U+2028, U+2029, U+202F, U+205F and
  U+3000. \<open>spaceRune bs\<close> holds when the bytes \<open>bs\<close> are exactly one such rune.
\<close>

definition asciiSpace :: "char \<Rightarrow> bool" where
  "asciiSpace c \<longleftrightarrow>
     c = CHR 0x09 \<or> c = CHR 0x0A \<or> c = CHR 0x0B \<or> c = CHR 0x0C \<or> c = CHR 0x0D \<or> c = CHR 0x20"

definition spaceRune :: "string \<Rightarrow> bool" where
  "spaceRune bs \<longleftrightarrow>
     (case bs of
        [c] \<Rightarrow> asciiSpace c
      | [a, b] \<Rightarrow> a = CHR 0xC2 \<and> (b = CHR 0x85 \<or> b = CHR 0xA0)
      | [a, b, c] \<Rightarrow>
          (a = CHR 0xE1 \<and> b = CHR 0x9A \<and> c = CHR 0x80)
        \<or> (a = CHR 0xE2 \<and> b = CHR 0x80 \<and>
             ((128::nat) \<le> of_char c \<and> (of_char c :: nat) \<le> 138
              \<or> c = CHR 0xA8 \<or> c = CHR 0xA9 \<or> c = CHR 0xAF))
        \<or> (a = CHR 0xE2 \<and> b = CHR 0x81 \<and> c = CHR 0x9F)
        \<or> (a = CHR 0xE3 \<and> b = CHR 0x80 \<and> c = CHR 0x80)
      | _ \<Rightarrow> False)"

text \<open>
  \<open>strings.TrimLeftFunc(s, unicode.IsSpace)\<close>: drop white-space runes from the front
  until the first rune that is not one. A white-space rune is one, two or three bytes.
\<close>

fun TrimLeft :: "string \<Rightarrow> string" where
  "TrimLeft s =
     (if s \<noteq> [] \<and> spaceRune (take 1 s) then TrimLeft (drop 1 s)
      else if 2 \<le> length s \<and> spaceRune (take 2 s) then TrimLeft (drop 2 s)
      else if 3 \<le> length s \<and> spaceRune (take 3 s) then TrimLeft (drop 3 s)
      else s)"

text \<open>
  \<open>strings.TrimRightFunc(s, unicode.IsSpace)\<close>: the same from the back. The last rune
  of a string that ends with the encoding of a white-space rune is that rune, whatever
  precedes it, since \<open>utf8.DecodeLastRuneInString\<close> goes back to the nearest start byte.
\<close>

fun TrimRight :: "string \<Rightarrow> string" where
  "TrimRight s =
     (let n = length s in
      if s \<noteq> [] \<and> spaceRune (drop (n - 1) s) then TrimRight (take (n - 1) s)
      else if 2 \<le> n \<and> spaceRune (drop (n - 2) s) then TrimRight (take (n - 2) s)
      else if 3 \<le> n \<and> spaceRune (drop (n - 3) s) then TrimRight (take (n - 3) s)
      else s)"

definition TrimSpace :: "string \<Rightarrow> string" where
  "TrimSpace s = TrimRight (TrimLeft s)"

text \<open>
  \<open>strings.ToLower\<close> on the bytes \<open>A\<close> to \<open>Z\<close>. Bytes from 0x80 on are kept as they
  are: Go maps the runes they encode through the Unicode case tables, which are not
  modelled. The only non-ASCII runes whose lower case is an ASCII letter are U+0130
  (to \<open>i\<close>) and U+212A (to \<open>k\<close>), and no column name compared below contains \<open>i\<close> or
  \<open>k\<close>, so the comparisons of \<open>findColumnIndices\<close> come out the same.
\<close>

definition lowerByte :: "char \<Rightarrow> char" where
  "lowerByte c =
     (if (65::nat) \<le> of_char c \<and> (of_char c :: nat) \<le> 90
      then char_of (of_char c + (32::nat)) else c)"

definition ToLower :: "string \<Rightarrow> string" where
  "ToLower s = map lowerByte s"

text \<open>\<open>strings.HasPrefix\<close> and \<open>strings.Contains\<close>.\<close>

fun HasPrefix :: "string \<Rightarrow> string \<Rightarrow> bool" where
  "HasPrefix s [] = True"
| "HasPrefix [] (p # ps) = False"
| "HasPrefix (c # cs) (p # ps) = (c = p \<and> HasPrefix cs ps)"

fun Contains :: "string \<Rightarrow> string \<Rightarrow> bool" where
  "Contains [] substr = (substr = [])"
| "Contains (c # cs) substr = (HasPrefix (c # cs) substr \<or> Contains cs substr)"


section \<open>Data model\<close>

text \<open>Go's \<open>int\<close> on a 64-bit platform: a 64-bit two's complement integer.\<close>

type_synonym int64 = "64 word"

text \<open>\<open>DepartmentSummary\<close> of \<open>file_service.go\<close>.\<close>

record DepartmentSummary =
  Department :: string
  TotalSales :: int64

text \<open>
  The calls on the logger, in the order they are made. The message of each call is
  kept as its kind and its arguments.
\<close>

datatype log_entry =
    Error_ReadHeader
  | Error_ReadRecord int
  | Warn_InsufficientColumns int
  | Warn_EmptyDepartment int
  | Warn_InvalidSales int string
  | Info_FoundColumns int int
  | Info_Processed nat
  | Error_CreateResultFile
  | Error_WriteHeader
  | Error_WriteData
  | Info_ResultSaved string

section \<open>Column resolution: \<open>findColumnIndices\<close>\<close>

datatype column_error = DepartmentColumnNotFound | SalesColumnNotFound

definition isDepartmentColumn :: "string \<Rightarrow> bool" where
  "isDepartmentColumn colLower \<longleftrightarrow>
     colLower = ''department'' \<or> colLower = ''department name'' \<or>
     Contains colLower ''department'' \<or> colLower = ''dept''"

definition isSalesColumn :: "string \<Rightarrow> bool" where
  "isSalesColumn colLower \<longleftrightarrow>
     colLower = ''sales'' \<or> colLower = ''total_sales'' \<or> colLower = ''total sales'' \<or>
     colLower = ''number of sales'' \<or> colLower = ''amount'' \<or> colLower = ''revenue''"

text \<open>
  The loop \<open>for i, col := range header\<close>, on the cells from index \<open>i\<close> on, with the
  two indices found so far (\<open>-1\<close>: not found yet).
\<close>

fun scanHeader :: "string list \<Rightarrow> int \<Rightarrow> int \<Rightarrow> int \<Rightarrow> int \<times> int" where
  "scanHeader [] i departmentIndex salesIndex = (departmentIndex, salesIndex)"
| "scanHeader (col # rest) i departmentIndex salesIndex =
     (let colLower = ToLower (TrimSpace col);
          departmentIndex' =
            (if departmentIndex = -1 \<and> isDepartmentColumn colLower then i else departmentIndex);
          salesIndex' =
            (if salesIndex = -1 \<and> isSalesColumn colLower then i else salesIndex)
      in scanHeader rest (i + 1) departmentIndex' salesIndex')"

definition findColumnIndices :: "string list \<Rightarrow> (column_error + int \<times> int) \<times> log_entry list" where
  "findColumnIndices header =
     (let (departmentIndex, salesIndex) = scanHeader header 0 (-1) (-1) in
      if departmentIndex = -1 then (Inl DepartmentColumnNotFound, [])
      else if salesIndex = -1 then (Inl SalesColumnNotFound, [])
      else (Inr (departmentIndex, salesIndex), [Info_FoundColumns departmentIndex salesIndex]))"

text \<open>
  For the statements about the header: whether a cell names the department column or
  the sales column once it is normalised as \<open>findColumnIndices\<close> normalises it.
\<close>

definition departmentCell :: "string \<Rightarrow> bool" where
  "departmentCell col \<longleftrightarrow> isDepartmentColumn (ToLower (TrimSpace col))"

definition salesCell :: "string \<Rightarrow> bool" where
  "salesCell col \<longleftrightarrow> isSalesColumn (ToLower (TrimSpace col))"

text \<open>The position of the leftmost element that satisfies \<open>P\<close>, if there is one.\<close>

fun leftmost :: "('a \<Rightarrow> bool) \<Rightarrow> 'a list \<Rightarrow> nat option" where
  "leftmost P [] = None"
| "leftmost P (x # xs) = (if P x then Some 0 else map_option Suc (leftmost P xs))"


section \<open>Numbers: \<open>strconv.Atoi\<close> and the verb \<open>%d\<close>\<close>

definition isDigit :: "char \<Rightarrow> bool" where
  "isDigit c \<longleftrightarrow> (48::nat) \<le> of_char c \<and> (of_char c :: nat) \<le> 57"

definition digitsValue :: "string \<Rightarrow> nat" where
  "digitsValue ds = foldl (\<lambda>n c. n * 10 + (of_char c - 48)) 0 ds"

text \<open>
  The syntax \<open>strconv.Atoi\<close> accepts: an optional sign \<open>+\<close> or \<open>-\<close>, then one or more
  decimal digits and nothing else. \<open>decimalValue\<close> is the number written, of any size.
\<close>

definition decimalValue :: "string \<Rightarrow> int option" where
  "decimalValue s =
     (let (neg, ds) =
        (case s of
           [] \<Rightarrow> (False, s)
         | c # r \<Rightarrow> if c = CHR ''-'' then (True, r) else if c = CHR ''+'' then (False, r) else (False, s))
      in if ds = [] \<or> \<not> list_all isDigit ds then None
         else Some (if neg then - int (digitsValue ds) else int (digitsValue ds)))"

datatype num_error = ErrSyntax | ErrRange

text \<open>\<open>strconv.Atoi\<close>: a syntax error, a range error when the number does not fit \<open>int\<close>, or the value.\<close>

definition Atoi :: "string \<Rightarrow> num_error + int64" where
  "Atoi s =
     (case decimalValue s of
        None \<Rightarrow> Inl ErrSyntax
      | Some v \<Rightarrow> if v < - (2 ^ 63) \<or> 2 ^ 63 - 1 < v then Inl ErrRange else Inr (word_of_int v))"

text \<open>The verb \<open>%d\<close> of \<open>fmt.Sprintf\<close> on an \<open>int\<close>: the decimal digits, after \<open>-\<close> when negative.\<close>

fun natDigits :: "nat \<Rightarrow> string" where
  "natDigits n =
     (if n < 10 then [char_of (48 + n)] else natDigits (n div 10) @ [char_of (48 + n mod 10)])"

definition FormatInt :: "int64 \<Rightarrow> string" where
  "FormatInt w =
     (if sint w < 0 then CHR ''-'' # natDigits (nat (- sint w)) else natDigits (nat (sint w)))"

section \<open>The reader of \<open>encoding/csv\<close>\<close>

text \<open>
  A file is taken as the sequence of records the tokenizer of \<open>encoding/csv\<close> makes of
  its bytes (blank lines are not records): \<open>Tokens fields\<close> for a record it parses, and
  \<open>Broken fields\<close> for one it cannot parse or read (a stray quote, an I/O error), with
  the fields it got before the error. The end of the list is the end of the file.
\<close>

datatype raw_record = Tokens "string list" | Broken "string list"

datatype read_error = EOF | ErrParse | ErrFieldCount

text \<open>
  \<open>csv.NewReader\<close> leaves \<open>FieldsPerRecord\<close> at 0. As the package documents and
  \<open>readRecord\<close> implements: when \<open>FieldsPerRecord\<close> is 0, \<open>Read\<close> sets it to the number of
  fields of the first record; when it is positive, a record with another number of
  fields is returned with the error \<open>ErrFieldCount\<close>; when it is negative, no check is
  made. \<open>ProcessSalesCSV\<close> never assigns the field.
\<close>

record Reader =
  FieldsPerRecord :: int
  input :: "raw_record list"

definition NewReader :: "raw_record list \<Rightarrow> Reader" where
  "NewReader file = \<lparr>FieldsPerRecord = 0, input = file\<rparr>"

definition Read :: "Reader \<Rightarrow> (string list \<times> read_error option) \<times> Reader" where
  "Read r =
     (case input r of
        [] \<Rightarrow> (([], Some EOF), r)
      | x # rest \<Rightarrow>
          (let (dst, err) = (case x of Tokens fs \<Rightarrow> (fs, None) | Broken fs \<Rightarrow> (fs, Some ErrParse));
               r' = r\<lparr>input := rest\<rparr>
           in if 0 < FieldsPerRecord r then
                (if int (length dst) \<noteq> FieldsPerRecord r \<and> err = None
                 then ((dst, Some ErrFieldCount), r') else ((dst, err), r'))
              else if FieldsPerRecord r = 0 then
                ((dst, err), r'\<lparr>FieldsPerRecord := int (length dst)\<rparr>)
              else ((dst, err), r')))"

section \<open>Aggregation: \<open>ProcessSalesCSV\<close>\<close>

datatype error =
    OpenFailed
  | ReadHeaderFailed read_error
  | FindColumnsFailed column_error
  | ReadRecordFailed int read_error
  | NoValidRows
  | IndexOutOfRange

text \<open>
  The map \<open>departmentSales\<close>, as the list of its entries, one per key, in the order the
  keys were first stored. \<open>addSales m department sales\<close> is the statement
  \<open>departmentSales[department] += sales\<close>: a missing key reads as 0.
\<close>

fun addSales :: "(string \<times> int64) list \<Rightarrow> string \<Rightarrow> int64 \<Rightarrow> (string \<times> int64) list" where
  "addSales [] department sales = [(department, 0 + sales)]"
| "addSales ((k, v) # m) department sales =
     (if k = department then (k, v + sales) # m else (k, v) # addSales m department sales)"

definition logged ::
  "log_entry \<Rightarrow> 'a \<times> Reader \<times> log_entry list \<Rightarrow> 'a \<times> Reader \<times> log_entry list" where
  "logged e res = (case res of (x, r, lg) \<Rightarrow> (x, r, e # lg))"

text \<open>
  The loop over the data rows, from the reader's position, with the map and the row
  counter so far. It returns the map at the end of the file (or the error that stopped
  it), the reader, and the log calls made. Indexing a record at a negative index is a
  run-time panic.
\<close>

function processRows ::
  "int \<Rightarrow> int \<Rightarrow> Reader \<Rightarrow> (string \<times> int64) list \<Rightarrow> int \<Rightarrow>
     (error + (string \<times> int64) list) \<times> Reader \<times> log_entry list" where
  "processRows departmentIndex salesIndex reader departmentSales rowNumber =
     (case Read reader of
        ((record, Some EOF), reader') \<Rightarrow> (Inr departmentSales, reader', [])
      | ((record, Some ErrParse), reader') \<Rightarrow>
          (Inl (ReadRecordFailed (rowNumber + 1) ErrParse), reader', [Error_ReadRecord (rowNumber + 1)])
      | ((record, Some ErrFieldCount), reader') \<Rightarrow>
          (Inl (ReadRecordFailed (rowNumber + 1) ErrFieldCount), reader', [Error_ReadRecord (rowNumber + 1)])
      | ((record, None), reader') \<Rightarrow>
          (if int (length record) \<le> departmentIndex \<or> int (length record) \<le> salesIndex then
             logged (Warn_InsufficientColumns (rowNumber + 1))
               (processRows departmentIndex salesIndex reader' departmentSales (rowNumber + 1))
           else if departmentIndex < 0 \<or> salesIndex < 0 then (Inl IndexOutOfRange, reader', [])
           else if TrimSpace (record ! nat departmentIndex) = [] then
             logged (Warn_EmptyDepartment (rowNumber + 1))
               (processRows departmentIndex salesIndex reader' departmentSales (rowNumber + 1))
           else
             (case Atoi (TrimSpace (record ! nat salesIndex)) of
                Inl err \<Rightarrow>
                  logged (Warn_InvalidSales (rowNumber + 1) (TrimSpace (record ! nat salesIndex)))
                    (processRows departmentIndex salesIndex reader' departmentSales (rowNumber + 1))
              | Inr sales \<Rightarrow>
                  processRows departmentIndex salesIndex reader'
                    (addSales departmentSales (TrimSpace (record ! nat departmentIndex)) sales)
                    (rowNumber + 1))))"
  by pat_completeness auto
termination
proof (relation "measure (\<lambda>(di, si, r, m, n). length (input r))")
  show "wf (measure (\<lambda>(di, si, r, m, n). length (input r)))"
    by simp
qed (auto simp: Read_def Let_def split: list.splits raw_record.splits if_splits)

text \<open>The body of \<open>ProcessSalesCSV\<close> once the file is open, on the reader made for it.\<close>

definition processReader ::
  "Reader \<Rightarrow> (error + DepartmentSummary list) \<times> Reader \<times> log_entry list" where
  "processReader reader =
     (case Read reader of
        ((header, Some e), reader') \<Rightarrow> (Inl (ReadHeaderFailed e), reader', [Error_ReadHeader])
      | ((header, None), reader') \<Rightarrow>
          (case findColumnIndices header of
             (Inl e, lg) \<Rightarrow> (Inl (FindColumnsFailed e), reader', lg)
           | (Inr (departmentIndex, salesIndex), lg) \<Rightarrow>
               (case processRows departmentIndex salesIndex reader' [] 1 of
                  (Inl e, reader'', lg') \<Rightarrow> (Inl e, reader'', lg @ lg')
                | (Inr departmentSales, reader'', lg') \<Rightarrow>
                    if length departmentSales = 0 then (Inl NoValidRows, reader'', lg @ lg')
                    else
                      (let summaries =
                             map (\<lambda>(department, totalSales).
                                    \<lparr>Department = department, TotalSales = totalSales\<rparr>)
                               departmentSales
                       in (Inr summaries, reader'', lg @ lg' @ [Info_Processed (length summaries)])))))"

text \<open>
  The files that can be opened, by path. \<open>ProcessSalesCSV\<close> returns the summaries or
  the error, and the log calls made. Go ranges over a map in an unspecified order; the
  summaries are listed here in the order of the entries, and nothing below depends on it.
\<close>

type_synonym filesystem = "string \<rightharpoonup> raw_record list"

definition ProcessSalesCSV ::
  "filesystem \<Rightarrow> string \<Rightarrow> (error + DepartmentSummary list) \<times> log_entry list" where
  "ProcessSalesCSV fs filePath =
     (case fs filePath of
        None \<Rightarrow> (Inl OpenFailed, [])
      | Some file \<Rightarrow>
          (case processReader (NewReader file) of (res, reader, lg) \<Rightarrow> (res, lg)))"


text \<open>
  What a record contributes when the reader delivers it: nothing when one of the
  three checks of the loop drops it, else the key and the amount added under it.
\<close>

definition rowEntry :: "int \<Rightarrow> int \<Rightarrow> string list \<Rightarrow> (string \<times> int64) option" where
  "rowEntry departmentIndex salesIndex cells =
     (if int (length cells) \<le> departmentIndex \<or> int (length cells) \<le> salesIndex then None
      else if TrimSpace (cells ! nat departmentIndex) = [] then None
      else (case Atoi (TrimSpace (cells ! nat salesIndex)) of
              Inl err \<Rightarrow> None
            | Inr sales \<Rightarrow> Some (TrimSpace (cells ! nat departmentIndex), sales)))"

text \<open>The total stored under a key of the map, 0 for a missing key.\<close>

definition totalOf :: "(string \<times> int64) list \<Rightarrow> string \<Rightarrow> int64" where
  "totalOf m k = (case map_of m k of None \<Rightarrow> 0 | Some v \<Rightarrow> v)"

text \<open>Addition of 64-bit two's complement integers, on their values.\<close>

definition wrap64 :: "int \<Rightarrow> int" where
  "wrap64 x = (x + 2 ^ 63) mod 2 ^ 64 - 2 ^ 63"

section \<open>Writing the result: \<open>SaveResultFile\<close>\<close>

text \<open>
  What the function meets outside: the path it makes of the uploads directory and a
  fresh UUID, whether \<open>os.Create\<close> succeeds there, and whether the \<open>n\<close>-th call of
  \<open>WriteString\<close> on the file succeeds (the header is call 0).
\<close>

record storage =
  resultPath :: string
  createOk :: bool
  writeOk :: "nat \<Rightarrow> bool"

datatype save_error = CreateFailed | WriteHeaderFailed | WriteDataFailed

definition newline :: string where
  "newline = [CHR 0x0A]"

definition resultHeader :: string where
  "resultHeader = ''Department Name,Total Number of Sales'' @ newline"

text \<open>\<open>fmt.Sprintf("%s,%d\n", summary.Department, summary.TotalSales)\<close>.\<close>

definition resultLine :: "DepartmentSummary \<Rightarrow> string" where
  "resultLine summary = Department summary @ '','' @ FormatInt (TotalSales summary) @ newline"

text \<open>
  The loop over the summaries: \<open>n\<close> counts the writes made so far and \<open>file\<close> is
  what the file holds. A write that succeeds appends its string.
\<close>

fun writeRows ::
  "(nat \<Rightarrow> bool) \<Rightarrow> nat \<Rightarrow> DepartmentSummary list \<Rightarrow> string \<Rightarrow> save_error + string" where
  "writeRows ok n [] file = Inr file"
| "writeRows ok n (summary # rest) file =
     (if ok n then writeRows ok (n + 1) rest (file @ resultLine summary)
      else Inl WriteDataFailed)"

text \<open>
  \<open>SaveResultFile\<close> returns the path and, with it, the content of the file it wrote, or
  the error; and the log calls made.
\<close>

definition SaveResultFile ::
  "storage \<Rightarrow> DepartmentSummary list \<Rightarrow> (save_error + string \<times> string) \<times> log_entry list" where
  "SaveResultFile st departmentSummaries =
     (if \<not> createOk st then (Inl CreateFailed, [Error_CreateResultFile])
      else if \<not> writeOk st 0 then (Inl WriteHeaderFailed, [Error_WriteHeader])
      else (case writeRows (writeOk st) 1 departmentSummaries resultHeader of
              Inl e \<Rightarrow> (Inl e, [Error_WriteData])
            | Inr file \<Rightarrow> (Inr (resultPath st, file), [Info_ResultSaved (resultPath st)])))"


text \<open>
  The index a role ends the scan with: the one it already holds, else the position of
  the leftmost matching cell counted from \<open>i\<close>, else \<open>-1\<close>.
\<close>

definition pick :: "int \<Rightarrow> int \<Rightarrow> nat option \<Rightarrow> int" where
  "pick found i m = (if found \<noteq> -1 then found else case m of None \<Rightarrow> -1 | Some k \<Rightarrow> i + int k)"

text \<open>The map after a record that contributes \<open>e\<close>.\<close>

definition applyRow :: "(string \<times> int64) list \<Rightarrow> (string \<times> int64) option \<Rightarrow> (string \<times> int64) list" where
  "applyRow m e = (case e of None \<Rightarrow> m | Some (k, v) \<Rightarrow> addSales m k v)"

text \<open>The conversion of the map to the slice of summaries, one summary per entry.\<close>

definition summariesOf :: "(string \<times> int64) list \<Rightarrow> DepartmentSummary list" where
  "summariesOf m = map (\<lambda>(department, totalSales). \<lparr>Department = department, TotalSales = totalSales\<rparr>) m"

section \<open>Properties\<close>

declare processRows.simps [simp del]

subsection \<open>The header scan\<close>

lemma leftmost_None: "leftmost P xs = None \<longleftrightarrow> (\<forall>x\<in>set xs. \<not> P x)"
  by (induction xs) auto

lemma leftmost_Some:
  "leftmost P xs = Some k \<Longrightarrow> k < length xs \<and> P (xs ! k) \<and> (\<forall>j<k. \<not> P (xs ! j))"
proof (induction xs arbitrary: k)
  case Nil
  then show ?case by simp
next
  case (Cons x xs)
  show ?case
  proof (cases "P x")
    case True
    with Cons.prems show ?thesis by simp
  next
    case False
    with Cons.prems obtain k' where k': "leftmost P xs = Some k'" "k = Suc k'"
      by auto
    from Cons.IH [OF k'(1)] False k'(2) show ?thesis
      by (auto simp: nth_Cons split: nat.splits)
  qed
qed

lemma scanHeader_leftmost:
  "0 \<le> i \<Longrightarrow> scanHeader header i d s =
     (pick d i (leftmost departmentCell header), pick s i (leftmost salesCell header))"
proof (induction header arbitrary: i d s)
  case Nil
  then show ?case by (simp add: pick_def)
next
  case (Cons col rest)
  from Cons.prems have "0 \<le> i + 1" by simp
  from Cons.IH [OF this] Cons.prems show ?case
    by (auto simp: pick_def Let_def departmentCell_def salesCell_def split: option.splits)
qed

lemma findColumnIndices_cases:
  "findColumnIndices header =
     (case leftmost departmentCell header of
        None \<Rightarrow> (Inl DepartmentColumnNotFound, [])
      | Some d \<Rightarrow>
          (case leftmost salesCell header of
             None \<Rightarrow> (Inl SalesColumnNotFound, [])
           | Some s \<Rightarrow> (Inr (int d, int s), [Info_FoundColumns (int d) (int s)])))"
  by (simp add: findColumnIndices_def scanHeader_leftmost pick_def split: option.splits)

lemma findColumnIndices_Inr:
  assumes "fst (findColumnIndices header) = Inr (di, si)"
  obtains d s where "di = int d" "si = int s"
    "leftmost departmentCell header = Some d" "leftmost salesCell header = Some s"
  using assms by (auto simp: findColumnIndices_cases split: option.splits)

lemma not_both_columns: "\<not> (isDepartmentColumn c \<and> isSalesColumn c)"
  by (auto simp: isDepartmentColumn_def isSalesColumn_def)

text \<open>
  Claim C3. When some cell of the header names the department column and some cell
  names the sales column (each cell trimmed and lower-cased before it is compared),
  \<open>findColumnIndices\<close> succeeds, and each of the two indices it returns is the position
  of the leftmost cell matching its role: the cell there matches and no cell before it
  does, whatever the other role found and whatever matches come later.
\<close>

theorem findColumnIndices_leftmost:
  assumes "\<exists>col\<in>set header. departmentCell col"
      and "\<exists>col\<in>set header. salesCell col"
  shows "\<exists>d v. findColumnIndices header = (Inr (int d, int v), [Info_FoundColumns (int d) (int v)])
           \<and> d < length header \<and> departmentCell (header ! d) \<and> (\<forall>j<d. \<not> departmentCell (header ! j))
           \<and> v < length header \<and> salesCell (header ! v) \<and> (\<forall>j<v. \<not> salesCell (header ! j))"
proof -
  from assms(1) obtain d where d: "leftmost departmentCell header = Some d"
    using leftmost_None [of departmentCell header] by (cases "leftmost departmentCell header") auto
  from assms(2) obtain v where s: "leftmost salesCell header = Some v"
    using leftmost_None [of salesCell header] by (cases "leftmost salesCell header") auto
  have "findColumnIndices header = (Inr (int d, int v), [Info_FoundColumns (int d) (int v)])"
    by (simp add: findColumnIndices_cases d s)
  with leftmost_Some [OF d] leftmost_Some [OF s] show ?thesis
    by blast
qed

theorem findColumnIndices_leftmost_witness:
  "(\<exists>col\<in>set [''id'', '' Department '', ''Sales'', ''dept'', ''amount'']. departmentCell col)
   \<and> (\<exists>col\<in>set [''id'', '' Department '', ''Sales'', ''dept'', ''amount'']. salesCell col)
   \<and> findColumnIndices [''id'', '' Department '', ''Sales'', ''dept'', ''amount'']
       = (Inr (1, 2), [Info_FoundColumns 1 2])"
proof -
  let ?h = "[''id'', '' Department '', ''Sales'', ''dept'', ''amount'']"
  have h1: "\<exists>col\<in>set ?h. departmentCell col"
    by code_simp
  have h2: "\<exists>col\<in>set ?h. salesCell col"
    by code_simp
  have cells: "\<not> departmentCell (?h ! 0)" "\<not> salesCell (?h ! 0)" "\<not> salesCell (?h ! 1)"
    by code_simp+
  from findColumnIndices_leftmost [OF h1 h2] obtain d v where
    r: "findColumnIndices ?h = (Inr (int d, int v), [Info_FoundColumns (int d) (int v)])"
    and d: "d < length ?h" "departmentCell (?h ! d)" "\<forall>j<d. \<not> departmentCell (?h ! j)"
    and s: "v < length ?h" "salesCell (?h ! v)" "\<forall>j<v. \<not> salesCell (?h ! j)"
    by blast
  have "departmentCell (?h ! 1)" "salesCell (?h ! 2)"
    by code_simp+
  with d(3) s(3) have "d \<le> 1" "v \<le> 2"
    by (metis not_le_imp_less)+
  with d(2) s(2) cells have "d = 1" "v = 2"
    by (auto simp: le_Suc_eq numeral_2_eq_2)
  with r h1 h2 show ?thesis by simp
qed

text \<open>
  Claim C9. No normalised cell is both a department name and a sales name, and so the
  two indices that \<open>findColumnIndices\<close> returns on success are different.
\<close>

theorem findColumnIndices_distinct:
  "(\<forall>c. \<not> (isDepartmentColumn c \<and> isSalesColumn c)) \<and>
   (fst (findColumnIndices header) = Inr (departmentIndex, salesIndex) \<longrightarrow> departmentIndex \<noteq> salesIndex)"
proof (intro conjI allI impI)
  fix c show "\<not> (isDepartmentColumn c \<and> isSalesColumn c)"
    by (rule not_both_columns)
next
  assume "fst (findColumnIndices header) = Inr (departmentIndex, salesIndex)"
  then obtain d v where ds: "departmentIndex = int d" "salesIndex = int v"
    "leftmost departmentCell header = Some d" "leftmost salesCell header = Some v"
    by (rule findColumnIndices_Inr)
  from leftmost_Some [OF ds(3)] leftmost_Some [OF ds(4)]
  have "departmentCell (header ! d)" "salesCell (header ! v)" by simp_all
  with not_both_columns have "d \<noteq> v"
    by (auto simp: departmentCell_def salesCell_def)
  with ds show "departmentIndex \<noteq> salesIndex" by simp
qed

theorem findColumnIndices_distinct_witness:
  "fst (findColumnIndices [''sales'', ''Department Name'']) = Inr (1, 0) \<and> (1::int) \<noteq> 0"
proof -
  have "fst (findColumnIndices [''sales'', ''Department Name'']) = Inr (1, 0)"
    by code_simp
  with findColumnIndices_distinct [of "[''sales'', ''Department Name'']" 1 0] show ?thesis
    by simp
qed

subsection \<open>The reader\<close>

lemma Read_empty:
  "Read \<lparr>FieldsPerRecord = N, input = []\<rparr> = (([], Some EOF), \<lparr>FieldsPerRecord = N, input = []\<rparr>)"
  by (simp add: Read_def)

lemma Read_delivered:
  "0 < N \<Longrightarrow> int (length c) = N \<Longrightarrow>
   Read \<lparr>FieldsPerRecord = N, input = Tokens c # rest\<rparr>
     = ((c, None), \<lparr>FieldsPerRecord = N, input = rest\<rparr>)"
  by (simp add: Read_def)

lemma Read_count:
  "0 < N \<Longrightarrow> int (length c) \<noteq> N \<Longrightarrow>
   Read \<lparr>FieldsPerRecord = N, input = Tokens c # rest\<rparr>
     = ((c, Some ErrFieldCount), \<lparr>FieldsPerRecord = N, input = rest\<rparr>)"
  by (simp add: Read_def)

lemma Read_broken:
  "0 < N \<Longrightarrow>
   Read \<lparr>FieldsPerRecord = N, input = Broken c # rest\<rparr>
     = ((c, Some ErrParse), \<lparr>FieldsPerRecord = N, input = rest\<rparr>)"
  by (simp add: Read_def)

lemma Read_header:
  "Read (NewReader (Tokens header # rest))
     = ((header, None), \<lparr>FieldsPerRecord = int (length header), input = rest\<rparr>)"
  by (simp add: Read_def NewReader_def)

subsection \<open>One turn of the loop\<close>

lemma fst_logged: "fst (logged e x) = fst x"
  by (cases x) (simp add: logged_def)

lemma processRows_eof:
  "Read r = ((c, Some EOF), r') \<Longrightarrow> processRows di si r m n = (Inr m, r', [])"
  by (simp add: processRows.simps)

lemma processRows_fail:
  "Read r = ((c, Some e), r') \<Longrightarrow> e \<noteq> EOF \<Longrightarrow>
   processRows di si r m n = (Inl (ReadRecordFailed (n + 1) e), r', [Error_ReadRecord (n + 1)])"
  by (cases e) (simp_all add: processRows.simps)

lemma processRows_short:
  "Read r = ((c, None), r') \<Longrightarrow> int (length c) \<le> di \<or> int (length c) \<le> si \<Longrightarrow>
   processRows di si r m n
     = logged (Warn_InsufficientColumns (n + 1)) (processRows di si r' m (n + 1))"
  by (subst processRows.simps) simp

lemma processRows_row:
  "Read r = ((c, None), r') \<Longrightarrow> 0 \<le> di \<Longrightarrow> di < int (length c) \<Longrightarrow>
   0 \<le> si \<Longrightarrow> si < int (length c) \<Longrightarrow>
   processRows di si r m n =
     (if TrimSpace (c ! nat di) = [] then
        logged (Warn_EmptyDepartment (n + 1)) (processRows di si r' m (n + 1))
      else case Atoi (TrimSpace (c ! nat si)) of
        Inl err \<Rightarrow>
          logged (Warn_InvalidSales (n + 1) (TrimSpace (c ! nat si)))
            (processRows di si r' m (n + 1))
      | Inr sales \<Rightarrow> processRows di si r' (addSales m (TrimSpace (c ! nat di)) sales) (n + 1))"
  by (subst processRows.simps) simp

lemma processRows_fst_step:
  assumes "Read r = ((c, None), r')" "0 \<le> di" "0 \<le> si"
  shows "fst (processRows di si r m n)
           = fst (processRows di si r' (applyRow m (rowEntry di si c)) (n + 1))"
proof (cases "int (length c) \<le> di \<or> int (length c) \<le> si")
  case True
  then show ?thesis
    using processRows_short [OF assms(1) True]
    by (simp add: fst_logged applyRow_def rowEntry_def)
next
  case False
  then have "di < int (length c)" "si < int (length c)" by auto
  from processRows_row [OF assms(1) assms(2) this(1) assms(3) this(2)] False show ?thesis
    by (simp add: fst_logged applyRow_def rowEntry_def split: sum.splits)
qed

subsection \<open>The whole loop\<close>

lemma processRows_prefix:
  assumes "0 < N" "0 \<le> di" "0 \<le> si"
  shows "\<forall>c\<in>set rows. int (length c) = N \<Longrightarrow>
     fst (processRows di si \<lparr>FieldsPerRecord = N, input = map Tokens rows @ rest\<rparr> m n)
       = fst (processRows di si \<lparr>FieldsPerRecord = N, input = rest\<rparr>
                (foldl applyRow m (map (rowEntry di si) rows)) (n + int (length rows)))"
proof (induction rows arbitrary: m n)
  case Nil
  then show ?case by simp
next
  case (Cons c rows)
  from Cons.prems have len: "int (length c) = N" and rest: "\<forall>c\<in>set rows. int (length c) = N"
    by simp_all
  have "fst (processRows di si \<lparr>FieldsPerRecord = N, input = Tokens c # (map Tokens rows @ rest)\<rparr> m n)
      = fst (processRows di si \<lparr>FieldsPerRecord = N, input = map Tokens rows @ rest\<rparr>
               (applyRow m (rowEntry di si c)) (n + 1))"
    by (rule processRows_fst_step [OF Read_delivered [OF assms(1) len] assms(2,3)])
  moreover have "n + 1 + int (length rows) = n + int (length (c # rows))"
    by simp
  ultimately show ?case
    using Cons.IH [OF rest, of "applyRow m (rowEntry di si c)" "n + 1"] by simp
qed

lemma processRows_all:
  assumes "0 < N" "0 \<le> di" "0 \<le> si" "\<forall>c\<in>set rows. int (length c) = N"
  shows "fst (processRows di si \<lparr>FieldsPerRecord = N, input = map Tokens rows\<rparr> m n)
           = Inr (foldl applyRow m (map (rowEntry di si) rows))"
  using processRows_prefix [OF assms, of "[]" m n]
  by (simp add: processRows_eof [OF Read_empty])

lemma processRows_stops:
  assumes "0 < N" "0 \<le> di" "0 \<le> si" "\<forall>c\<in>set rows. int (length c) = N"
    and "bad = Broken c \<or> (bad = Tokens c \<and> int (length c) \<noteq> N)"
  shows "fst (processRows di si \<lparr>FieldsPerRecord = N, input = map Tokens rows @ bad # post\<rparr> m n)
           = Inl (ReadRecordFailed (n + int (length rows) + 1)
                    (case bad of Broken _ \<Rightarrow> ErrParse | Tokens _ \<Rightarrow> ErrFieldCount))"
proof -
  from assms(5) obtain e where
    "Read \<lparr>FieldsPerRecord = N, input = bad # post\<rparr> = ((c, Some e), \<lparr>FieldsPerRecord = N, input = post\<rparr>)"
    "e \<noteq> EOF" "e = (case bad of Broken _ \<Rightarrow> ErrParse | Tokens _ \<Rightarrow> ErrFieldCount)"
    using Read_broken [OF assms(1)] Read_count [OF assms(1)] by auto
  with processRows_prefix [OF assms(1-4), of "bad # post" m n] show ?thesis
    by (simp add: processRows_fail)
qed

subsection \<open>The map\<close>

lemma addSales_sum: "sum_list (map snd (addSales m k v)) = sum_list (map snd m) + v"
  by (induction m k v rule: addSales.induct) (simp_all add: algebra_simps)

lemma addSales_keys: "set (map fst (addSales m k v)) = insert k (set (map fst m))"
  by (induction m k v rule: addSales.induct) auto

lemma addSales_distinct: "distinct (map fst m) \<Longrightarrow> distinct (map fst (addSales m k v))"
proof (induction m k v rule: addSales.induct)
  case (1 department sales)
  then show ?case by simp
next
  case (2 k v m department sales)
  then show ?case
    using addSales_keys [of m department sales] by auto
qed

lemma addSales_not_empty: "addSales m k v \<noteq> []"
  by (cases m) (auto split: if_splits)

lemma map_of_addSales: "map_of (addSales m k v) = (map_of m)(k \<mapsto> totalOf m k + v)"
  by (induction m k v rule: addSales.induct) (auto simp: totalOf_def fun_eq_iff)

lemma applyRow_sum:
  "sum_list (map snd (foldl applyRow m (map f rows)))
     = sum_list (map snd m) + sum_list (map snd (List.map_filter f rows))"
proof (induction rows arbitrary: m)
  case Nil
  then show ?case by simp
next
  case (Cons c rows)
  show ?case
  proof (cases "f c")
    case None
    with Cons.IH [of m] show ?thesis by (simp add: applyRow_def)
  next
    case (Some e)
    obtain k v where e: "e = (k, v)" by (cases e)
    from Cons.IH [of "addSales m k v"] Some e show ?thesis
      by (simp add: applyRow_def addSales_sum algebra_simps)
  qed
qed

lemma applyRow_distinct:
  "distinct (map fst m) \<Longrightarrow> distinct (map fst (foldl applyRow m es))"
proof (induction es arbitrary: m)
  case Nil
  then show ?case by simp
next
  case (Cons e es)
  from Cons.prems have "distinct (map fst (applyRow m e))"
    by (auto simp: applyRow_def addSales_distinct split: option.splits)
  from Cons.IH [OF this] show ?case by simp
qed

lemma applyRow_empty:
  "foldl applyRow m es = [] \<longleftrightarrow> m = [] \<and> (\<forall>e\<in>set es. e = None)"
proof (induction es arbitrary: m)
  case Nil
  then show ?case by simp
next
  case (Cons e es)
  show ?case
  proof (cases e)
    case None
    with Cons.IH [of m] show ?thesis by (simp add: applyRow_def)
  next
    case (Some kv)
    obtain k v where kv: "kv = (k, v)" by (cases kv)
    with Some have "applyRow m e = addSales m k v"
      by (simp add: applyRow_def)
    with Cons.IH [of "addSales m k v"] Some show ?thesis
      by (simp add: addSales_not_empty)
  qed
qed

subsection \<open>A pass that returns has read every row\<close>

lemma processRows_Inr:
  assumes "0 < N" "0 \<le> di" "0 \<le> si"
  shows "fst (processRows di si \<lparr>FieldsPerRecord = N, input = recs\<rparr> m n) = Inr m' \<Longrightarrow>
         \<exists>rows. recs = map Tokens rows \<and> (\<forall>c\<in>set rows. int (length c) = N)"
proof (induction recs arbitrary: m n)
  case Nil
  then show ?case by simp
next
  case (Cons x recs)
  show ?case
  proof (cases "\<exists>c. x = Tokens c \<and> int (length c) = N")
    case True
    then obtain c where c: "x = Tokens c" "int (length c) = N" by blast
    from processRows_fst_step [OF Read_delivered [OF assms(1) c(2)] assms(2,3)] Cons.prems c(1)
    have "fst (processRows di si \<lparr>FieldsPerRecord = N, input = recs\<rparr>
                 (applyRow m (rowEntry di si c)) (n + 1)) = Inr m'"
      by simp
    from Cons.IH [OF this] obtain rows where
      "recs = map Tokens rows" "\<forall>c\<in>set rows. int (length c) = N" by blast
    with c have "x # recs = map Tokens (c # rows) \<and> (\<forall>c\<in>set (c # rows). int (length c) = N)"
      by simp
    then show ?thesis by (rule exI)
  next
    case False
    then obtain c where "x = Broken c \<or> (x = Tokens c \<and> int (length c) \<noteq> N)"
      by (cases x) auto
    from processRows_stops [OF assms, of "[]" x c recs m n] this Cons.prems show ?thesis
      by simp
  qed
qed

subsection \<open>The body of \<open>ProcessSalesCSV\<close>\<close>

lemma findColumnIndices_bounds:
  assumes "fst (findColumnIndices header) = Inr (di, si)"
  shows "0 \<le> di \<and> di < int (length header) \<and> 0 \<le> si \<and> si < int (length header)"
proof -
  from assms obtain d v where dv: "di = int d" "si = int v"
    "leftmost departmentCell header = Some d" "leftmost salesCell header = Some v"
    by (rule findColumnIndices_Inr)
  from leftmost_Some [OF dv(3)] leftmost_Some [OF dv(4)] dv(1,2) show ?thesis
    by simp
qed



lemma processReader_resolved:
  assumes "fst (findColumnIndices header) = Inr (di, si)"
  shows "fst (processReader (NewReader (Tokens header # recs)))
     = (case fst (processRows di si \<lparr>FieldsPerRecord = int (length header), input = recs\<rparr> [] 1) of
          Inl e \<Rightarrow> Inl e
        | Inr m \<Rightarrow> if m = [] then Inl NoValidRows else Inr (summariesOf m))"
proof -
  obtain lg where f: "findColumnIndices header = (Inr (di, si), lg)"
    using assms by (cases "findColumnIndices header") auto
  obtain res r' lg' where
    p: "processRows di si \<lparr>FieldsPerRecord = int (length header), input = recs\<rparr> [] 1 = (res, r', lg')"
    by (cases "processRows di si \<lparr>FieldsPerRecord = int (length header), input = recs\<rparr> [] 1")
  show ?thesis
    by (cases res) (simp_all add: processReader_def Read_header f p summariesOf_def Let_def)
qed

lemma processReader_Inr:
  assumes "fst (processReader (NewReader file)) = Inr summaries"
  obtains header recs di si where "file = Tokens header # recs"
    "fst (findColumnIndices header) = Inr (di, si)"
proof -
  from assms obtain x recs where fl: "file = x # recs"
    by (cases "file") (auto simp: processReader_def Read_def NewReader_def)
  from assms fl obtain header where x: "x = Tokens header"
    by (cases x) (auto simp: processReader_def Read_def NewReader_def)
  from assms fl x obtain di si where "fst (findColumnIndices header) = Inr (di, si)"
    by (cases "findColumnIndices header")
       (auto simp: processReader_def Read_header split: sum.splits prod.splits)
  with fl x that show ?thesis by blast
qed

lemma fst_ProcessSalesCSV:
  "fs filePath = Some file \<Longrightarrow>
   fst (ProcessSalesCSV fs filePath) = fst (processReader (NewReader file))"
  by (simp add: ProcessSalesCSV_def split: prod.splits)

end
